theory Spec2Isabelle
  imports Complex_Main
begin

section \<open>Library functions the exporter calls\<close>

text \<open>
  Go strings are byte sequences; they are modelled as \<open>string\<close> (a list of bytes).
  The functions of this section are the calls into Go's \<^verbatim>\<open>strings\<close>, \<^verbatim>\<open>fmt\<close> and
  \<^verbatim>\<open>regexp\<close> packages that \<^verbatim>\<open>ganalytics.go\<close> makes, at the arguments it makes them with.
\<close>

subsection \<open>The character class of the pattern \<^verbatim>\<open>[^a-zA-Z0-9]+\<close>\<close>

definition isAlnum :: "char \<Rightarrow> bool" where
  "isAlnum c =
     (let n = (of_char c :: nat)
      in (97 \<le> n \<and> n \<le> 122) \<or> (65 \<le> n \<and> n \<le> 90) \<or> (48 \<le> n \<and> n \<le> 57))"

text \<open>
  \<^verbatim>\<open>reg.ReplaceAllString(src, repl)\<close> for \<^verbatim>\<open>reg = [^a-zA-Z0-9]+\<close>: every maximal run of
  bytes outside the class is replaced by \<open>repl\<close> (a literal without \<^verbatim>\<open>$\<close>). A rune
  beyond ASCII, and an invalid byte, consist only of bytes outside the class, so the
  scan by bytes removes exactly what the scan by runes removes.
\<close>

function ReplaceAllString :: "string \<Rightarrow> string \<Rightarrow> string" where
  "ReplaceAllString [] repl = []"
| "ReplaceAllString (c # cs) repl =
     (if isAlnum c then c # ReplaceAllString cs repl
      else repl @ ReplaceAllString (dropWhile (\<lambda>x. \<not> isAlnum x) cs) repl)"
  by pat_completeness auto
termination
  by (relation "measure (\<lambda>(s, repl). length s)")
     (auto simp: le_imp_less_Suc length_dropWhile_le)

subsection \<open>\<^verbatim>\<open>strings.Join\<close>, \<^verbatim>\<open>strings.Replace\<close>, \<^verbatim>\<open>strings.Contains\<close>\<close>

fun Join :: "string list \<Rightarrow> string \<Rightarrow> string" where
  "Join [] sep = []"
| "Join [x] sep = x"
| "Join (x # y # ys) sep = x @ sep @ Join (y # ys) sep"

text \<open>
  \<^verbatim>\<open>strings.Replace(s, old, new, n)\<close> where \<open>old\<close> is one byte, as at both call sites
  (\<^verbatim>\<open>":"\<close> and \<^verbatim>\<open>" "\<close>): the first \<open>n\<close> occurrences are replaced, all of them when
  \<open>n < 0\<close>.
\<close>

fun Replace :: "string \<Rightarrow> char \<Rightarrow> string \<Rightarrow> int \<Rightarrow> string" where
  "Replace [] old new n = []"
| "Replace (c # cs) old new n =
     (if n \<noteq> 0 \<and> c = old then new @ Replace cs old new (n - 1)
      else c # Replace cs old new n)"

fun HasPrefix :: "string \<Rightarrow> string \<Rightarrow> bool" where
  "HasPrefix s [] = True"
| "HasPrefix [] (p # ps) = False"
| "HasPrefix (c # cs) (p # ps) = (c = p \<and> HasPrefix cs ps)"

fun Contains :: "string \<Rightarrow> string \<Rightarrow> bool" where
  "Contains [] substr = (substr = [])"
| "Contains (c # cs) substr = (HasPrefix (c # cs) substr \<or> Contains cs substr)"

section \<open>Configuration\<close>

text \<open>
  \<^verbatim>\<open>type conf struct\<close>; a Go \<^verbatim>\<open>map[string][]string\<close> is a partial map, and reading a
  missing key gives the nil slice.
\<close>

record conf =
  Interval :: int
  Metrics :: "string list"
  Dimensions :: "(string \<rightharpoonup> string list) list"
  ViewID :: string
  PromPort :: string

definition index_map :: "(string \<rightharpoonup> string list) \<Rightarrow> string \<Rightarrow> string list" where
  "index_map m k = (case m k of None \<Rightarrow> [] | Some v \<Rightarrow> v)"

section \<open>Label sanitizer and dimension resolver\<close>

definition buildMetricLabel :: "string \<Rightarrow> string" where
  "buildMetricLabel action =
     (let rows = [''rt:'', ReplaceAllString action '''']
      in Replace (Join rows ''_'') CHR '' '' ''_'' (- 1))"

text \<open>
  \<^verbatim>\<open>getDimensions\<close>: the loop assigns \<open>dimensions\<close> at every entry of
  \<^verbatim>\<open>config.Dimensions\<close>, whether the entry has the metric or not.
\<close>

fun getDimensions_loop :: "(string \<rightharpoonup> string list) list \<Rightarrow> string \<Rightarrow> string \<Rightarrow> string" where
  "getDimensions_loop [] metric dimensions = dimensions"
| "getDimensions_loop (dimensionMap # rest) metric dimensions =
     getDimensions_loop rest metric (Join (index_map dimensionMap metric) '','')"

definition getDimensions :: "conf \<Rightarrow> string \<Rightarrow> string" where
  "getDimensions config metric = getDimensions_loop (Dimensions config) metric ''''"

section \<open>Gauge values and \<^verbatim>\<open>strconv.ParseFloat\<close>\<close>

text \<open>
  A gauge holds a \<^verbatim>\<open>float64\<close>. The finite values are written as the rationals they
  denote; the rounding of a literal to the nearest \<^verbatim>\<open>float64\<close> is the library's and is
  not modelled: the library's reading of a cell is the parameter \<open>scan\<close> of the worker.
  What \<^verbatim>\<open>strconv.ParseFloat(s, 64)\<close> returns for each reading is the library's contract:
  the number and no error; \<open>0\<close> and \<^verbatim>\<open>ErrSyntax\<close> for a malformed \<open>s\<close>; an infinity and
  \<^verbatim>\<open>ErrRange\<close> for a well-formed \<open>s\<close> beyond the range of \<^verbatim>\<open>float64\<close>.
\<close>

datatype float64 = Finite rat | PosInf | NegInf | NaN

datatype NumError = ErrSyntax | ErrRange

datatype scanned = Number float64 | Malformed | OutOfRange bool

definition ParseFloat :: "(string \<Rightarrow> scanned) \<Rightarrow> string \<Rightarrow> float64 \<times> NumError option" where
  "ParseFloat scan s =
     (case scan s of
        Number f \<Rightarrow> (f, None)
      | Malformed \<Rightarrow> (Finite 0, Some ErrSyntax)
      | OutOfRange negative \<Rightarrow> (if negative then NegInf else PosInf, Some ErrRange))"

section \<open>The metrics library's registry\<close>

text \<open>
  The exporter registers its collectors with the default registry of the Prometheus
  client library, which is not part of this repository. The registry is modelled by the
  library's documented checks in \<^verbatim>\<open>Register\<close>, for collectors with one descriptor (a
  \<^verbatim>\<open>Gauge\<close> and a \<^verbatim>\<open>GaugeVec\<close> have one):
  \<^item> a descriptor whose name is not a metric name is refused;
  \<^item> a descriptor is refused when a registered descriptor of the same name has another
    help string or other label names;
  \<^item> a descriptor whose name and constant label values are those of a registered
    collector gives \<^verbatim>\<open>AlreadyRegisteredError\<close>, which carries the registered collector;
  \<^item> otherwise the collector is added.
  The library identifies descriptors by hashes of these data; the model compares the data
  themselves. A collector is a pointer: an address and its kind. The collectors that the
  library registers by itself (the Go runtime and the process) have names that start with
  \<^verbatim>\<open>go_\<close> and \<^verbatim>\<open>process_\<close>, never with the \<^verbatim>\<open>ga_\<close> of the exporter's names; they are left
  out. A metric name is a letter, \<^verbatim>\<open>_\<close> or \<^verbatim>\<open>:\<close> followed by letters, digits, \<^verbatim>\<open>_\<close> and \<^verbatim>\<open>:\<close>.
\<close>

type_synonym addr = nat

record Desc =
  fqName :: string
  Help :: string
  constLabels :: "(string \<times> string) list"
  variableLabels :: "string list"

datatype Collector = Gauge addr | GaugeVec addr

datatype RegisterError = InvalidDesc | InconsistentDesc | AlreadyRegisteredError Collector

type_synonym Registry = "(Desc \<times> Collector) list"

definition isNameChar :: "char \<Rightarrow> bool" where
  "isNameChar c = (isAlnum c \<or> c = CHR ''_'' \<or> c = CHR '':'')"

definition isDigit :: "char \<Rightarrow> bool" where
  "isDigit c = (let n = (of_char c :: nat) in 48 \<le> n \<and> n \<le> 57)"

definition IsValidMetricName :: "string \<Rightarrow> bool" where
  "IsValidMetricName n =
     (case n of [] \<Rightarrow> False | c # cs \<Rightarrow> isNameChar c \<and> \<not> isDigit c \<and> list_all isNameChar cs)"

definition descID :: "Desc \<Rightarrow> string \<times> string list" where
  "descID d = (fqName d, map snd (constLabels d))"

definition dimHash :: "Desc \<Rightarrow> string \<times> string list" where
  "dimHash d = (Help d, map fst (constLabels d) @ variableLabels d)"

definition Register :: "Registry \<Rightarrow> Desc \<Rightarrow> Collector \<Rightarrow> RegisterError + Registry" where
  "Register r d c =
     (if \<not> IsValidMetricName (fqName d) then Inl InvalidDesc
      else if list_ex (\<lambda>(d', c'). fqName d' = fqName d \<and> dimHash d' \<noteq> dimHash d) r
      then Inl InconsistentDesc
      else (case find (\<lambda>(d', c'). descID d' = descID d) r of
              Some (d', existing) \<Rightarrow> Inl (AlreadyRegisteredError existing)
            | None \<Rightarrow> Inr (r @ [(d, c)])))"

section \<open>The exporter's state\<close>

text \<open>
  The package variables \<^verbatim>\<open>promGauge\<close> and \<^verbatim>\<open>promGaugeVec\<close>, the default registry, the
  values held by the gauges and by the children of the gauge vectors (by label values),
  the next fresh address, and the requests sent to the data source so far.
\<close>

record request =
  reqViewID :: string
  reqMetric :: string
  reqDimensions :: "string option"

record state =
  promGauge :: "string \<rightharpoonup> addr"
  promGaugeVec :: "string \<rightharpoonup> addr"
  registry :: Registry
  gaugeVal :: "addr \<Rightarrow> float64"
  vecVal :: "addr \<Rightarrow> string list \<rightharpoonup> float64"
  nextAddr :: addr
  requests :: "request list"

definition start :: state where
  "start = \<lparr>promGauge = Map.empty, promGaugeVec = Map.empty, registry = [],
            gaugeVal = (\<lambda>a. Finite 0), vecVal = (\<lambda>a. Map.empty), nextAddr = 0,
            requests = []\<rparr>"

datatype failure =
    FetchFailed string
  | IndexOutOfRange
  | NilDereference
  | RegisterFailed RegisterError
  | TypeAssertionFailed

text \<open>A panic ends the process; the state it leaves is kept beside the failure.\<close>

type_synonym outcome = "(failure \<times> state) + state"

section \<open>Registration\<close>

text \<open>The options \<^verbatim>\<open>init\<close> gives \<^verbatim>\<open>NewGauge\<close>, and \<^verbatim>\<open>registerMetricVec\<close> gives \<^verbatim>\<open>NewGaugeVec\<close>.\<close>

definition gaugeDesc :: "string \<Rightarrow> Desc" where
  "gaugeDesc metric =
     \<lparr>fqName = ''ga_'' @ Replace metric CHR '':'' ''_'' 1,
      Help = ''Google Analytics '' @ metric,
      constLabels = [(''job'', ''googleAnalytics'')],
      variableLabels = []\<rparr>"

definition gaugeVecDesc :: "string \<Rightarrow> Desc" where
  "gaugeVecDesc metric =
     \<lparr>fqName = ''ga_'' @ Replace metric CHR '':'' ''_'' 1,
      Help = ''Google Analytics '' @ metric,
      constLabels = [(''job'', ''googleAnalytics'')],
      variableLabels = [''category'']\<rparr>"

text \<open>
  One round of the loop of \<^verbatim>\<open>init\<close>: a new gauge (value 0) is stored in \<^verbatim>\<open>promGauge\<close>
  and registered; the error of \<^verbatim>\<open>prometheus.Register\<close> is dropped.
\<close>

definition init_step :: "string \<Rightarrow> state \<Rightarrow> state" where
  "init_step metric s =
     (let g = nextAddr s;
          s1 = s\<lparr>promGauge := (promGauge s)(metric \<mapsto> g),
                 gaugeVal := (gaugeVal s)(g := Finite 0),
                 nextAddr := Suc g\<rparr>
      in case Register (registry s1) (gaugeDesc metric) (Gauge g) of
           Inl err \<Rightarrow> s1
         | Inr r \<Rightarrow> s1\<lparr>registry := r\<rparr>)"

fun init_loop :: "string list \<Rightarrow> state \<Rightarrow> state" where
  "init_loop [] s = s"
| "init_loop (metric # rest) s = init_loop rest (init_step metric s)"

definition init :: "conf \<Rightarrow> state" where
  "init config = init_loop (Metrics config) start"

definition registerMetricVec :: "string \<Rightarrow> state \<Rightarrow> outcome" where
  "registerMetricVec metric s =
     (let v = nextAddr s;
          s1 = s\<lparr>promGaugeVec := (promGaugeVec s)(metric \<mapsto> v),
                 vecVal := (vecVal s)(v := Map.empty),
                 nextAddr := Suc v\<rparr>
      in case Register (registry s1) (gaugeVecDesc metric) (GaugeVec v) of
           Inr r \<Rightarrow> Inr (s1\<lparr>registry := r\<rparr>)
         | Inl (AlreadyRegisteredError existing) \<Rightarrow>
             (case existing of
                GaugeVec e \<Rightarrow> Inr (s1\<lparr>promGaugeVec := (promGaugeVec s1)(metric \<mapsto> e)\<rparr>)
              | Gauge e \<Rightarrow> Inl (TypeAssertionFailed, s1))
         | Inl err \<Rightarrow> Inl (RegisterFailed err, s1))"

section \<open>The worker\<close>

text \<open>
  \<^verbatim>\<open>collectMetric\<close>. The data source \<open>rts\<close> answers a request with an error or with the
  rows of \<^verbatim>\<open>m.Rows\<close>; the cells come out of a JSON document, so they are valid text, for
  which \<^verbatim>\<open>WithLabelValues\<close> with the one value of the one label gives the child. Indexing
  a row beyond its length, calling \<^verbatim>\<open>Set\<close> on the nil gauge of a metric that is not in
  \<^verbatim>\<open>promGauge\<close>, and a failed registration are panics.
\<close>

definition mkRequest :: "conf \<Rightarrow> string \<Rightarrow> string \<Rightarrow> request" where
  "mkRequest config metric gaDimensions =
     \<lparr>reqViewID = ViewID config, reqMetric = metric,
      reqDimensions = (if length gaDimensions > 0 then Some gaDimensions else None)\<rparr>"

definition collectRow :: "(string \<Rightarrow> scanned) \<Rightarrow> string list \<Rightarrow> state \<Rightarrow> outcome" where
  "collectRow scan row s =
     (case row of
        [] \<Rightarrow> Inl (IndexOutOfRange, s)
      | category # cells \<Rightarrow>
          if \<not> Contains category ''(not set)'' then
            (if length row \<le> 1 then Inl (IndexOutOfRange, s)
             else
               (let label = buildMetricLabel (row ! 1)
                in case registerMetricVec label s of
                     Inl f \<Rightarrow> Inl f
                   | Inr s1 \<Rightarrow>
                       if length row \<le> 2 then Inl (IndexOutOfRange, s1)
                       else
                         (let valf = fst (ParseFloat scan (row ! 2))
                          in case promGaugeVec s1 label of
                               None \<Rightarrow> Inl (NilDereference, s1)
                             | Some vec \<Rightarrow>
                                 Inr (s1\<lparr>vecVal := (vecVal s1)
                                        (vec := (vecVal s1 vec)([category] \<mapsto> valf))\<rparr>))))
          else Inr s)"

fun collectRows :: "(string \<Rightarrow> scanned) \<Rightarrow> string list list \<Rightarrow> state \<Rightarrow> outcome" where
  "collectRows scan [] s = Inr s"
| "collectRows scan (row # rest) s =
     (case collectRow scan row s of
        Inl f \<Rightarrow> Inl f
      | Inr s1 \<Rightarrow> collectRows scan rest s1)"

definition collectMetric ::
  "conf \<Rightarrow> (string \<Rightarrow> scanned) \<Rightarrow> (request \<Rightarrow> string + string list list) \<Rightarrow>
   string \<Rightarrow> string \<Rightarrow> state \<Rightarrow> outcome" where
  "collectMetric config scan rts metric gaDimensions s =
     (let s0 = s\<lparr>requests := requests s @ [mkRequest config metric gaDimensions]\<rparr>
      in case rts (mkRequest config metric gaDimensions) of
           Inl err \<Rightarrow> Inl (FetchFailed err, s0)
         | Inr rows \<Rightarrow>
             if length rows = 1 then
               (if length (rows ! 0) \<le> 0 then Inl (IndexOutOfRange, s0)
                else
                  (let valf = fst (ParseFloat scan (rows ! 0 ! 0))
                   in case promGauge s0 metric of
                        None \<Rightarrow> Inl (NilDereference, s0)
                      | Some g \<Rightarrow> Inr (s0\<lparr>gaugeVal := (gaugeVal s0)(g := valf)\<rparr>)))
             else collectRows scan rows s0)"

text \<open>The body of the goroutine that \<^verbatim>\<open>main\<close> starts for a metric at every tick.\<close>

definition worker ::
  "conf \<Rightarrow> (string \<Rightarrow> scanned) \<Rightarrow> (request \<Rightarrow> string + string list list) \<Rightarrow>
   string \<Rightarrow> state \<Rightarrow> outcome" where
  "worker config scan rts metric s =
     collectMetric config scan rts metric (getDimensions config metric) s"

section \<open>Specification-side definitions\<close>

text \<open>
  The resolver as the specification words it: the value of the last entry that defines
  the metric, and the empty string when no entry defines it.
\<close>

definition dimensionsFor :: "(string \<rightharpoonup> string list) list \<Rightarrow> string \<Rightarrow> string" where
  "dimensionsFor entries metricName =
     (case find (\<lambda>e. e metricName \<noteq> None) (rev entries) of
        None \<Rightarrow> ''''
      | Some e \<Rightarrow> Join (index_map e metricName) '','')"

text \<open>A name with its first \<^verbatim>\<open>:\<close> replaced by \<^verbatim>\<open>_\<close>, by splitting at that colon.\<close>

definition firstColonReplaced :: "string \<Rightarrow> string" where
  "firstColonReplaced m =
     (case dropWhile (\<lambda>c. c \<noteq> CHR '':'') m of
        [] \<Rightarrow> m
      | c # rest \<Rightarrow> takeWhile (\<lambda>c. c \<noteq> CHR '':'') m @ ''_'' @ rest)"

text \<open>
  The shape of a result that the indexing of \<^verbatim>\<open>collectMetric\<close> needs: the only row of a
  one-row result has a cell; in any other result every row has a cell, and three cells
  unless its first cell contains \<^verbatim>\<open>(not set)\<close>.
\<close>

definition row_indexable :: "string list \<Rightarrow> bool" where
  "row_indexable row =
     (case row of
        [] \<Rightarrow> False
      | category # cells \<Rightarrow> Contains category ''(not set)'' \<or> 3 \<le> length row)"

definition rows_indexable :: "string list list \<Rightarrow> bool" where
  "rows_indexable rows =
     (if length rows = 1 then 1 \<le> length (rows ! 0) else list_all row_indexable rows)"

text \<open>
  No registered series of another kind bears the name of a vector series: a registered
  descriptor named \<^verbatim>\<open>ga_rt__\<close> and letters and digits is the descriptor that
  \<^verbatim>\<open>registerMetricVec\<close> builds for that label, and its collector is a gauge vector. It
  holds after \<^verbatim>\<open>init\<close> unless a configured metric is itself named \<^verbatim>\<open>rt:_\<close> or \<^verbatim>\<open>rt__\<close> and
  letters and digits.
\<close>

definition vectorLabelOf :: "string \<Rightarrow> string option" where
  "vectorLabelOf n =
     (if HasPrefix n ''ga_rt__'' \<and> list_all isAlnum (drop 7 n)
      then Some (''rt:_'' @ drop 7 n) else None)"

definition vector_names_free :: "Registry \<Rightarrow> bool" where
  "vector_names_free r =
     list_all (\<lambda>(d, c). case vectorLabelOf (fqName d) of
                          None \<Rightarrow> True
                        | Some label \<Rightarrow>
                            d = gaugeVecDesc label \<and>
                            (case c of GaugeVec a \<Rightarrow> True | Gauge a \<Rightarrow> False)) r"

section \<open>Sample inputs\<close>

definition sampleDimensions :: "(string \<rightharpoonup> string list) list" where
  "sampleDimensions =
     [[''rt:pageviews'' \<mapsto> [''rt:pagePath'']],
      [''rt:activeUsers'' \<mapsto> [''rt:country'', ''rt:city'']]]"

definition sampleConf :: conf where
  "sampleConf =
     \<lparr>Interval = 10, Metrics = [''rt:pageviews'', ''rt:activeUsers''],
      Dimensions = sampleDimensions, ViewID = ''ga:123'', PromPort = ''9100''\<rparr>"

text \<open>A configuration whose metric is exported under the name of a vector series.\<close>

definition clashingConf :: conf where
  "clashingConf =
     \<lparr>Interval = 10, Metrics = [''rt:_mobile''],
      Dimensions = [], ViewID = ''ga:123'', PromPort = ''9100''\<rparr>"

text \<open>What \<^verbatim>\<open>strconv.ParseFloat\<close> reads in the cells of the sample results.\<close>

definition sampleScan :: "string \<Rightarrow> scanned" where
  "sampleScan s =
     (if s = ''42.5'' then Number (Finite 42.5)
      else if s = ''7'' then Number (Finite 7)
      else if s = ''1'' then Number (Finite 1)
      else if s = ''1e999'' then OutOfRange False
      else Malformed)"

text \<open>A data source that answers every request with the given rows.\<close>

definition answering :: "string list list \<Rightarrow> request \<Rightarrow> string + string list list" where
  "answering rows r = Inr rows"

section \<open>Evaluation of the definitions on concrete inputs\<close>

lemmas name_eval = IsValidMetricName_def isNameChar_def isAlnum_def isDigit_def

lemmas registry_eval = Register_def descID_def dimHash_def gaugeDesc_def gaugeVecDesc_def

lemmas state_eval = init_def init_step_def start_def registerMetricVec_def Let_def

section \<open>The label sanitizer\<close>

lemma filter_dropWhile_not: "filter P (dropWhile (\<lambda>x. \<not> P x) xs) = filter P xs"
  by (induction xs) auto

lemma ReplaceAllString_delete: "ReplaceAllString s [] = filter isAlnum s"
  by (induction s "[] :: string" rule: ReplaceAllString.induct)
     (simp_all add: filter_dropWhile_not)

lemma Replace_absent: "old \<notin> set s \<Longrightarrow> Replace s old new n = s"
  by (induction s) auto

lemma space_not_alnum: "\<not> isAlnum CHR '' ''"
  by (simp add: isAlnum_def)

lemma buildMetricLabel_eq: "buildMetricLabel raw = ''rt:_'' @ filter isAlnum raw"
proof -
  have "CHR '' '' \<notin> set (filter isAlnum raw)"
    using space_not_alnum by auto
  then have "CHR '' '' \<notin> set (''rt:'' @ ''_'' @ filter isAlnum raw)"
    by simp
  then show ?thesis
    by (simp add: buildMetricLabel_def ReplaceAllString_delete Replace_absent)
qed

text \<open>
  C4. For every raw string, the output of \<^verbatim>\<open>buildMetricLabel\<close> is the prefix \<^verbatim>\<open>rt:\<close>, an
  underscore, and the ASCII letters and digits of the input in their order; it has no
  space.
\<close>

theorem sanitize_output:
  "buildMetricLabel raw = ''rt:'' @ ''_'' @ filter isAlnum raw \<and>
   CHR '' '' \<notin> set (buildMetricLabel raw)"
  using space_not_alnum by (auto simp: buildMetricLabel_eq)

theorem sanitize_output_witness:
  "buildMetricLabel ''mo bile-9!'' = ''rt:_mobile9'' \<and>
   CHR '' '' \<notin> set (buildMetricLabel ''mo bile-9!'')"
  using sanitize_output [of "''mo bile-9!''"] by (simp add: isAlnum_def)

text \<open>
  C9, as the claim states it: for the empty input the output would be just the prefix
  \<^verbatim>\<open>rt:\<close>. It is not: \<^verbatim>\<open>strings.Join\<close> puts the separator after the prefix also when the
  stripped string is empty.
\<close>

theorem sanitize_empty_is_not_the_prefix: "buildMetricLabel '''' \<noteq> ''rt:''"
  by (simp add: buildMetricLabel_def)

text \<open>
  C9, amended. \<^verbatim>\<open>buildMetricLabel\<close> is a function of its argument alone, with a value at
  every string, and for the empty input its output is the prefix \<^verbatim>\<open>rt:\<close> followed by the
  joining underscore.
\<close>

theorem sanitize_empty: "buildMetricLabel '''' = ''rt:'' @ ''_''"
  by (simp add: buildMetricLabel_def)

section \<open>The dimension resolver\<close>

lemma getDimensions_loop_last:
  "entries \<noteq> [] \<Longrightarrow>
   getDimensions_loop entries metric d = Join (index_map (last entries) metric) '',''"
  by (induction entries arbitrary: d) auto

text \<open>What the loop computes: the value of the last entry, whether it has the metric or not.\<close>

lemma getDimensions_last:
  "Dimensions config \<noteq> [] \<Longrightarrow>
   getDimensions config metric = Join (index_map (last (Dimensions config)) metric) '',''"
  by (simp add: getDimensions_def getDimensions_loop_last)

lemma getDimensions_no_entries: "Dimensions config = [] \<Longrightarrow> getDimensions config metric = ''''"
  by (simp add: getDimensions_def)

text \<open>
  C3. The claim: the resolver returns the dimensions of the last entry that defines the
  metric. With one entry per metric, the entry of \<^verbatim>\<open>rt:pageviews\<close> is followed by an entry
  that does not have it, and \<^verbatim>\<open>getDimensions\<close> returns the empty string where the claim
  has \<^verbatim>\<open>rt:pagePath\<close>.
\<close>

theorem getDimensions_later_entry_erases:
  "getDimensions sampleConf ''rt:pageviews'' = '''' \<and>
   dimensionsFor (Dimensions sampleConf) ''rt:pageviews'' = ''rt:pagePath''"
  by (simp add: getDimensions_def sampleConf_def sampleDimensions_def index_map_def
      dimensionsFor_def)

section \<open>Registration\<close>

lemma Desc_eqI:
  fixes d d' :: Desc
  assumes "descID d' = descID d" and "dimHash d' = dimHash d"
  shows "d' = d"
proof -
  have n: "fqName d' = fqName d" and v: "map snd (constLabels d') = map snd (constLabels d)"
    using assms(1) by (simp_all add: descID_def)
  have h: "Help d' = Help d"
    and a: "map fst (constLabels d') @ variableLabels d' = map fst (constLabels d) @ variableLabels d"
    using assms(2) by (simp_all add: dimHash_def)
  have "length (constLabels d') = length (constLabels d)"
    using v by (metis length_map)
  then have k: "map fst (constLabels d') = map fst (constLabels d)"
    and l: "variableLabels d' = variableLabels d"
    using a by simp_all
  have "constLabels d' = constLabels d"
    using k v by (simp add: pair_list_eqI)
  then show ?thesis
    using n h l by simp
qed

lemma Register_Inr:
  "Register r d c = Inr r' \<Longrightarrow>
   r' = r @ [(d, c)] \<and> find (\<lambda>(d', c'). descID d' = descID d) r = None"
  by (auto simp: Register_def split: if_splits option.splits)

lemma Register_already:
  assumes "Register r d c = Inl (AlreadyRegisteredError e)"
  shows "(d, e) \<in> set r \<and> find (\<lambda>(d', c'). descID d' = descID d) r = Some (d, e)"
proof -
  from assms obtain d' where f: "find (\<lambda>(d', c'). descID d' = descID d) r = Some (d', e)"
    and nex: "\<not> list_ex (\<lambda>(d', c'). fqName d' = fqName d \<and> dimHash d' \<noteq> dimHash d) r"
    by (auto simp: Register_def split: if_splits option.splits)
  from f have mem: "(d', e) \<in> set r" and id: "descID d' = descID d"
    by (auto simp: find_Some_iff in_set_conv_nth)
  from id have "fqName d' = fqName d" by (simp add: descID_def)
  with nex mem have "dimHash d' = dimHash d"
    by (auto simp: list_ex_iff)
  with id have "d' = d" by (rule Desc_eqI)
  with f mem show ?thesis by simp
qed

lemma find_app:
  "find P (xs @ ys) = (case find P xs of None \<Rightarrow> find P ys | Some x \<Rightarrow> Some x)"
  by (induction xs) auto

lemma Register_again:
  assumes "Register r d c = Inr r'"
  shows "Register r' d c2 = Inl (AlreadyRegisteredError c)"
proof -
  from assms have r': "r' = r @ [(d, c)]"
    and none: "find (\<lambda>(d', c'). descID d' = descID d) r = None"
    by (auto dest: Register_Inr)
  from assms have valid: "IsValidMetricName (fqName d)"
    and nex: "\<not> list_ex (\<lambda>(d', c'). fqName d' = fqName d \<and> dimHash d' \<noteq> dimHash d) r"
    by (auto simp: Register_def split: if_splits)
  have "find (\<lambda>(d', c'). descID d' = descID d) r' = Some (d, c)"
    using none by (simp add: r' find_app)
  moreover have "\<not> list_ex (\<lambda>(d', c'). fqName d' = fqName d \<and> dimHash d' \<noteq> dimHash d) r'"
    using nex by (simp add: r' list_ex_iff)
  ultimately show ?thesis
    using valid by (simp add: Register_def)
qed

lemma Register_independent_of_collector_error:
  "Register r d c = Inl err \<Longrightarrow> Register r d c2 = Inl err"
  by (auto simp: Register_def split: if_splits option.splits)

lemma filter_unique:
  assumes "distinct (map f xs)" and "x \<in> set xs"
  shows "filter (\<lambda>y. f y = f x) xs = [x]"
  using assms
proof (induction xs)
  case Nil
  then show ?case by simp
next
  case (Cons a xs)
  show ?case
  proof (cases "a = x")
    case True
    have "\<forall>y \<in> set xs. f y \<noteq> f x"
      using Cons.prems(1) True by (auto simp: image_iff)
    then have "filter (\<lambda>y. f y = f x) xs = []"
      by (simp add: filter_empty_conv)
    then show ?thesis using True by simp
  next
    case False
    then have "x \<in> set xs" using Cons.prems(2) by simp
    moreover have "f a \<noteq> f x"
      using Cons.prems(1) \<open>x \<in> set xs\<close> by (auto simp: image_iff)
    ultimately show ?thesis
      using Cons by simp
  qed
qed


lemma registerMetricVec_Inr:
  assumes "registerMetricVec m s = Inr s1"
  shows "\<exists>h. promGaugeVec s1 m = Some h \<and>
             Register (registry s1) (gaugeVecDesc m) c = Inl (AlreadyRegisteredError (GaugeVec h)) \<and>
             (registry s1 = registry s \<or>
              registry s1 = registry s @ [(gaugeVecDesc m, GaugeVec h)] \<and>
              find (\<lambda>(d', c'). descID d' = descID (gaugeVecDesc m)) (registry s) = None)"
proof (cases "Register (registry s) (gaugeVecDesc m) (GaugeVec (nextAddr s))")
  case (Inr r)
  with assms have s1: "s1 = s\<lparr>promGaugeVec := (promGaugeVec s)(m \<mapsto> nextAddr s),
      vecVal := (vecVal s)(nextAddr s := Map.empty), nextAddr := Suc (nextAddr s), registry := r\<rparr>"
    by (simp add: registerMetricVec_def Let_def)
  from Inr have "Register r (gaugeVecDesc m) c = Inl (AlreadyRegisteredError (GaugeVec (nextAddr s)))"
    by (rule Register_again)
  moreover from Inr have "r = registry s @ [(gaugeVecDesc m, GaugeVec (nextAddr s))]"
    and "find (\<lambda>(d', c'). descID d' = descID (gaugeVecDesc m)) (registry s) = None"
    by (auto dest: Register_Inr)
  ultimately show ?thesis
    by (simp add: s1)
next
  case (Inl err)
  with assms obtain e where err: "err = AlreadyRegisteredError (GaugeVec e)"
    and s1: "s1 = s\<lparr>promGaugeVec := (promGaugeVec s)(m \<mapsto> nextAddr s),
      vecVal := (vecVal s)(nextAddr s := Map.empty), nextAddr := Suc (nextAddr s),
      promGaugeVec := ((promGaugeVec s)(m \<mapsto> nextAddr s))(m \<mapsto> e)\<rparr>"
    by (auto simp: registerMetricVec_def Let_def split: RegisterError.splits Collector.splits)
  from Inl err have "Register (registry s) (gaugeVecDesc m) c = Inl (AlreadyRegisteredError (GaugeVec e))"
    by (auto dest: Register_independent_of_collector_error)
  then show ?thesis
    by (simp add: s1)
qed

lemma registerMetricVec_again:
  assumes "registerMetricVec m s1 = r"
      and "promGaugeVec s1 m = Some h"
      and "Register (registry s1) (gaugeVecDesc m) (GaugeVec (nextAddr s1)) =
             Inl (AlreadyRegisteredError (GaugeVec h))"
  shows "\<exists>s2. r = Inr s2 \<and> promGaugeVec s2 m = Some h \<and> registry s2 = registry s1"
  using assms by (auto simp: registerMetricVec_def Let_def)

text \<open>
  C5. When \<^verbatim>\<open>registerMetricVec\<close> has succeeded for a name, a second call for that name
  succeeds too, installs the same handle, and leaves the registry as it was, with exactly
  one series of that identity, the one behind the handle. A failure of
  \<^verbatim>\<open>prometheus.Register\<close> other than \<^verbatim>\<open>AlreadyRegisteredError\<close> is a panic. (The calls are
  sequential; the interleaving of goroutines is not modelled.)
\<close>

theorem registerMetricVec_idempotent:
  "(registerMetricVec m s = Inr s1 \<and> distinct (map (descID \<circ> fst) (registry s)) \<longrightarrow>
     (\<exists>s2 h. registerMetricVec m s1 = Inr s2 \<and>
        promGaugeVec s1 m = Some h \<and> promGaugeVec s2 m = Some h \<and>
        registry s2 = registry s1 \<and>
        filter (\<lambda>e. descID (fst e) = descID (gaugeVecDesc m)) (registry s2) =
          [(gaugeVecDesc m, GaugeVec h)])) \<and>
   (Register (registry s) (gaugeVecDesc m) (GaugeVec (nextAddr s)) = Inl err \<and>
    (\<forall>c. err \<noteq> AlreadyRegisteredError c) \<longrightarrow>
     (\<exists>s'. registerMetricVec m s = Inl (RegisterFailed err, s')))"
proof (intro conjI impI)
  assume a: "registerMetricVec m s = Inr s1 \<and> distinct (map (descID \<circ> fst) (registry s))"
  then obtain h where h: "promGaugeVec s1 m = Some h"
    and again: "Register (registry s1) (gaugeVecDesc m) (GaugeVec (nextAddr s1)) =
                  Inl (AlreadyRegisteredError (GaugeVec h))"
    and reg: "registry s1 = registry s \<or>
              registry s1 = registry s @ [(gaugeVecDesc m, GaugeVec h)] \<and>
              find (\<lambda>(d', c'). descID d' = descID (gaugeVecDesc m)) (registry s) = None"
    using registerMetricVec_Inr [of m s s1 "GaugeVec (nextAddr s1)"] by blast
  obtain s2 where s2: "registerMetricVec m s1 = Inr s2" "promGaugeVec s2 m = Some h"
    "registry s2 = registry s1"
    using registerMetricVec_again [OF refl h again] by blast
  have mem: "(gaugeVecDesc m, GaugeVec h) \<in> set (registry s1)"
    using again by (auto dest: Register_already)
  have "distinct (map (descID \<circ> fst) (registry s1))"
  proof -
    { assume n: "find (\<lambda>(d', c'). descID d' = descID (gaugeVecDesc m)) (registry s) = None"
      have "descID (gaugeVecDesc m) \<notin> (descID \<circ> fst) ` set (registry s)"
      proof
        assume "descID (gaugeVecDesc m) \<in> (descID \<circ> fst) ` set (registry s)"
        then obtain d c where "(d, c) \<in> set (registry s)" "descID d = descID (gaugeVecDesc m)"
          by auto
        then show False using n by (auto simp: find_None_iff)
      qed }
    then show ?thesis using reg a by auto
  qed
  then have "filter (\<lambda>y. (descID \<circ> fst) y = (descID \<circ> fst) (gaugeVecDesc m, GaugeVec h)) (registry s1) =
      [(gaugeVecDesc m, GaugeVec h)]"
    using mem by (rule filter_unique)
  then have "filter (\<lambda>e. descID (fst e) = descID (gaugeVecDesc m)) (registry s1) =
      [(gaugeVecDesc m, GaugeVec h)]"
    by simp
  with s2 h show "\<exists>s2 h. registerMetricVec m s1 = Inr s2 \<and>
        promGaugeVec s1 m = Some h \<and> promGaugeVec s2 m = Some h \<and>
        registry s2 = registry s1 \<and>
        filter (\<lambda>e. descID (fst e) = descID (gaugeVecDesc m)) (registry s2) =
          [(gaugeVecDesc m, GaugeVec h)]"
    by simp
next
  assume "Register (registry s) (gaugeVecDesc m) (GaugeVec (nextAddr s)) = Inl err \<and>
    (\<forall>c. err \<noteq> AlreadyRegisteredError c)"
  then show "\<exists>s'. registerMetricVec m s = Inl (RegisterFailed err, s')"
    by (cases err) (auto simp: registerMetricVec_def Let_def)
qed

theorem registerMetricVec_idempotent_witness:
  "\<exists>s1 s2 s'. registerMetricVec ''rt:_mobile'' start = Inr s1 \<and>
      registerMetricVec ''rt:_mobile'' s1 = Inr s2 \<and>
      promGaugeVec s1 ''rt:_mobile'' = Some 0 \<and> promGaugeVec s2 ''rt:_mobile'' = Some 0 \<and>
      registry s2 = registry s1 \<and>
      filter (\<lambda>e. descID (fst e) = descID (gaugeVecDesc ''rt:_mobile'')) (registry s2) =
          [(gaugeVecDesc ''rt:_mobile'', GaugeVec 0)] \<and>
      registerMetricVec ''rt:_mobile'' (init clashingConf) = Inl (RegisterFailed InconsistentDesc, s')"
proof -
  obtain s1 where s1: "registerMetricVec ''rt:_mobile'' start = Inr s1"
    and h: "promGaugeVec s1 ''rt:_mobile'' = Some 0"
    by (simp add: state_eval registry_eval name_eval)
  have d: "distinct (map (descID \<circ> fst) (registry start))"
    by (simp add: start_def)
  have f: "Register (registry (init clashingConf)) (gaugeVecDesc ''rt:_mobile'')
             (GaugeVec (nextAddr (init clashingConf))) = Inl InconsistentDesc"
    by (simp add: clashingConf_def state_eval registry_eval name_eval)
  have n: "\<forall>c. InconsistentDesc \<noteq> AlreadyRegisteredError c"
    by simp
  from registerMetricVec_idempotent [of "''rt:_mobile''" start s1] s1 d h
    registerMetricVec_idempotent [where m = "''rt:_mobile''" and s = "init clashingConf"
      and err = InconsistentDesc] f n
  show ?thesis
    by auto
qed

section \<open>The names of the exported series\<close>

lemma Replace_zero: "Replace s old new 0 = s"
  by (induction s) auto

lemma Replace_split:
  "old \<notin> set pre \<Longrightarrow> Replace (pre @ old # post) old new 1 = pre @ new @ post"
  by (induction pre) (auto simp: Replace_zero)

lemma Replace_first_colon: "Replace m CHR '':'' ''_'' 1 = firstColonReplaced m"
proof (cases "dropWhile (\<lambda>c. c \<noteq> CHR '':'') m")
  case Nil
  have "firstColonReplaced m = m"
    unfolding firstColonReplaced_def Nil by simp
  moreover have "CHR '':'' \<notin> set m"
    using Nil by auto
  ultimately show ?thesis
    by (simp add: Replace_absent)
next
  case (Cons y ys)
  have f: "firstColonReplaced m = takeWhile (\<lambda>c. c \<noteq> CHR '':'') m @ ''_'' @ ys"
    unfolding firstColonReplaced_def Cons by simp
  have y: "y = CHR '':''"
    using hd_dropWhile [of "\<lambda>c. c \<noteq> CHR '':''" m] Cons by simp
  have t: "CHR '':'' \<notin> set (takeWhile (\<lambda>c. c \<noteq> CHR '':'') m)"
    by (auto dest: set_takeWhileD)
  have "m = takeWhile (\<lambda>c. c \<noteq> CHR '':'') m @ CHR '':'' # ys"
    using takeWhile_dropWhile_id [of "\<lambda>c. c \<noteq> CHR '':''" m] Cons y by simp
  then have "Replace m CHR '':'' ''_'' 1 =
      Replace (takeWhile (\<lambda>c. c \<noteq> CHR '':'') m @ CHR '':'' # ys) CHR '':'' ''_'' 1"
    by simp
  also have "\<dots> = takeWhile (\<lambda>c. c \<noteq> CHR '':'') m @ ''_'' @ ys"
    using t by (rule Replace_split)
  finally show ?thesis
    using f by simp
qed

lemma fqName_gaugeVecDesc_label:
  "fqName (gaugeVecDesc (buildMetricLabel x)) = ''ga_rt__'' @ filter isAlnum x"
  by (simp add: gaugeVecDesc_def buildMetricLabel_eq Replace_zero)

lemma init_step_registry:
  "set (registry (init_step m s)) \<subseteq> set (registry s) \<union> {(gaugeDesc m, Gauge (nextAddr s))}"
  by (auto simp: init_step_def Let_def dest: Register_Inr split: sum.splits)

lemma init_loop_registry:
  "(d, c) \<in> set (registry (init_loop ms s)) \<Longrightarrow>
   (d, c) \<in> set (registry s) \<or> (\<exists>m \<in> set ms. \<exists>g. d = gaugeDesc m \<and> c = Gauge g)"
proof (induction ms arbitrary: s)
  case Nil
  then show ?case by simp
next
  case (Cons m ms)
  from Cons.prems have "(d, c) \<in> set (registry (init_loop ms (init_step m s)))"
    by simp
  then have "(d, c) \<in> set (registry (init_step m s)) \<or>
      (\<exists>m \<in> set ms. \<exists>g. d = gaugeDesc m \<and> c = Gauge g)"
    by (rule Cons.IH)
  then show ?case
    using init_step_registry [of m s] by auto
qed

lemma init_registry:
  "(d, c) \<in> set (registry (init config)) \<Longrightarrow>
   \<exists>m \<in> set (Metrics config). \<exists>g. d = gaugeDesc m \<and> c = Gauge g"
  using init_loop_registry [of d c "Metrics config" start]
  by (auto simp: init_def start_def)

lemma registerMetricVec_registered:
  assumes "registerMetricVec m s = Inr s1"
  shows "\<exists>h. promGaugeVec s1 m = Some h \<and> (gaugeVecDesc m, GaugeVec h) \<in> set (registry s1)"
proof -
  from registerMetricVec_Inr [OF assms, of "GaugeVec 0"] obtain h
    where "promGaugeVec s1 m = Some h"
      and "Register (registry s1) (gaugeVecDesc m) (GaugeVec 0) =
             Inl (AlreadyRegisteredError (GaugeVec h))"
    by blast
  then show ?thesis
    by (auto dest: Register_already)
qed

text \<open>
  C8, amended. Every series that \<^verbatim>\<open>init\<close> registers is named \<^verbatim>\<open>ga_\<close> followed by a
  configured metric name with its first \<^verbatim>\<open>:\<close> replaced by \<^verbatim>\<open>_\<close>, has no label dimension
  and carries the constant label \<^verbatim>\<open>job\<close>. The vector series behind the handle that
  \<^verbatim>\<open>registerMetricVec\<close> installs for a sanitized label is named in the same way, \<^verbatim>\<open>ga_\<close>
  followed by the label with its first \<^verbatim>\<open>:\<close> replaced by \<^verbatim>\<open>_\<close> (that is \<^verbatim>\<open>ga_rt__\<close> and the
  letters and digits of the dimension value), has the one label dimension \<^verbatim>\<open>category\<close>
  and carries the same constant label.
\<close>

theorem series_names:
  "(\<forall>(d, c) \<in> set (registry (init config)).
      \<exists>m \<in> set (Metrics config).
        fqName d = ''ga_'' @ firstColonReplaced m \<and> variableLabels d = [] \<and>
        constLabels d = [(''job'', ''googleAnalytics'')]) \<and>
   (registerMetricVec (buildMetricLabel x) s = Inr s' \<longrightarrow>
      (\<exists>h d. promGaugeVec s' (buildMetricLabel x) = Some h \<and>
         (d, GaugeVec h) \<in> set (registry s') \<and>
         fqName d = ''ga_'' @ firstColonReplaced (buildMetricLabel x) \<and>
         fqName d = ''ga_rt__'' @ filter isAlnum x \<and>
         variableLabels d = [''category''] \<and>
         constLabels d = [(''job'', ''googleAnalytics'')]))"
proof (intro conjI impI)
  show "\<forall>(d, c) \<in> set (registry (init config)).
      \<exists>m \<in> set (Metrics config).
        fqName d = ''ga_'' @ firstColonReplaced m \<and> variableLabels d = [] \<and>
        constLabels d = [(''job'', ''googleAnalytics'')]"
  proof (clarify)
    fix d c
    assume "(d, c) \<in> set (registry (init config))"
    then obtain m where "m \<in> set (Metrics config)" "d = gaugeDesc m"
      by (auto dest: init_registry)
    then show "\<exists>m \<in> set (Metrics config).
        fqName d = ''ga_'' @ firstColonReplaced m \<and> variableLabels d = [] \<and>
        constLabels d = [(''job'', ''googleAnalytics'')]"
      by (auto simp: gaugeDesc_def Replace_first_colon)
  qed
next
  assume "registerMetricVec (buildMetricLabel x) s = Inr s'"
  then obtain h where "promGaugeVec s' (buildMetricLabel x) = Some h"
    and "(gaugeVecDesc (buildMetricLabel x), GaugeVec h) \<in> set (registry s')"
    by (auto dest: registerMetricVec_registered)
  moreover have "fqName (gaugeVecDesc (buildMetricLabel x)) =
      ''ga_'' @ firstColonReplaced (buildMetricLabel x)"
    by (simp add: gaugeVecDesc_def Replace_first_colon)
  moreover note fqName_gaugeVecDesc_label [of x]
  moreover have "variableLabels (gaugeVecDesc (buildMetricLabel x)) = [''category'']"
    and "constLabels (gaugeVecDesc (buildMetricLabel x)) = [(''job'', ''googleAnalytics'')]"
    by (simp_all add: gaugeVecDesc_def)
  ultimately show "\<exists>h d. promGaugeVec s' (buildMetricLabel x) = Some h \<and>
         (d, GaugeVec h) \<in> set (registry s') \<and>
         fqName d = ''ga_'' @ firstColonReplaced (buildMetricLabel x) \<and>
         fqName d = ''ga_rt__'' @ filter isAlnum x \<and>
         variableLabels d = [''category''] \<and>
         constLabels d = [(''job'', ''googleAnalytics'')]"
    by blast
qed

lemma init_sampleConf_registry:
  "registry (init sampleConf) =
     [(gaugeDesc ''rt:pageviews'', Gauge 0), (gaugeDesc ''rt:activeUsers'', Gauge 1)]"
  by (simp add: sampleConf_def state_eval registry_eval name_eval)

theorem series_names_witness:
  "map (fqName \<circ> fst) (registry (init sampleConf)) = [''ga_rt_pageviews'', ''ga_rt_activeUsers''] \<and>
   (\<exists>m \<in> set (Metrics sampleConf). ''ga_rt_pageviews'' = ''ga_'' @ firstColonReplaced m) \<and>
   (\<exists>s' d. registerMetricVec (buildMetricLabel ''mobile'') (init sampleConf) = Inr s' \<and>
       promGaugeVec s' (buildMetricLabel ''mobile'') = Some 2 \<and>
       (d, GaugeVec 2) \<in> set (registry s') \<and> fqName d = ''ga_rt__mobile'' \<and>
       variableLabels d = [''category''] \<and> constLabels d = [(''job'', ''googleAnalytics'')])"
proof -
  obtain s' where s': "registerMetricVec (buildMetricLabel ''mobile'') (init sampleConf) = Inr s'"
    and h: "promGaugeVec s' (buildMetricLabel ''mobile'') = Some 2"
    by (simp add: sampleConf_def buildMetricLabel_def state_eval registry_eval name_eval)
  have f: "filter isAlnum ''mobile'' = ''mobile''"
    by (simp add: isAlnum_def)
  have n: "map (fqName \<circ> fst) (registry (init sampleConf)) = [''ga_rt_pageviews'', ''ga_rt_activeUsers'']"
    by (simp add: init_sampleConf_registry gaugeDesc_def)
  have m: "(gaugeDesc ''rt:pageviews'', Gauge 0) \<in> set (registry (init sampleConf))"
    by (simp add: init_sampleConf_registry)
  from series_names [of sampleConf "''mobile''" "init sampleConf" s'] s' h f n m
  show ?thesis
    by (auto simp: gaugeDesc_def)
qed

text \<open>
  C8, as the claim states it: a vector series would be named exactly the label that the
  sanitizer derives. For the dimension value \<^verbatim>\<open>mobile\<close> the label is \<^verbatim>\<open>rt:_mobile\<close> and the
  series is named \<^verbatim>\<open>ga_rt__mobile\<close>.
\<close>

theorem vector_series_name_is_not_the_label:
  "fqName (gaugeVecDesc (buildMetricLabel ''mobile'')) = ''ga_rt__mobile'' \<and>
   buildMetricLabel ''mobile'' = ''rt:_mobile'' \<and>
   fqName (gaugeVecDesc (buildMetricLabel ''mobile'')) \<noteq> buildMetricLabel ''mobile''"
  by (simp add: gaugeVecDesc_def buildMetricLabel_def isAlnum_def)

section \<open>The worker\<close>

lemma registerMetricVec_failure:
  "registerMetricVec m s = Inl (f, s') \<Longrightarrow> f = TypeAssertionFailed \<or> (\<exists>e. f = RegisterFailed e)"
  by (auto simp: registerMetricVec_def Let_def
      split: sum.splits RegisterError.splits Collector.splits)

lemma collectRow_skip:
  "Contains category ''(not set)'' \<Longrightarrow> collectRow scan (category # cells) s = Inr s"
  by (simp add: collectRow_def)

lemma collectRow_keep:
  assumes "\<not> Contains category ''(not set)''"
      and "registerMetricVec (buildMetricLabel dimensionValue) s = Inr s1"
  shows "\<exists>vec. promGaugeVec s1 (buildMetricLabel dimensionValue) = Some vec \<and>
           (gaugeVecDesc (buildMetricLabel dimensionValue), GaugeVec vec) \<in> set (registry s1) \<and>
           collectRow scan (category # dimensionValue # cell # others) s =
             Inr (s1\<lparr>vecVal := (vecVal s1)
                    (vec := (vecVal s1 vec)([category] \<mapsto> fst (ParseFloat scan cell)))\<rparr>)"
proof -
  from registerMetricVec_registered [OF assms(2)] obtain vec
    where "promGaugeVec s1 (buildMetricLabel dimensionValue) = Some vec"
      and "(gaugeVecDesc (buildMetricLabel dimensionValue), GaugeVec vec) \<in> set (registry s1)"
    by blast
  then show ?thesis
    using assms by (simp add: collectRow_def)
qed

lemma collectRow_failure:
  assumes "collectRow scan row s = Inl (f, s')"
  shows "f = IndexOutOfRange \<or> f = TypeAssertionFailed \<or> (\<exists>e. f = RegisterFailed e)"
proof (cases row)
  case Nil
  with assms show ?thesis by (simp add: collectRow_def)
next
  case (Cons category cells)
  show ?thesis
  proof (cases "registerMetricVec (buildMetricLabel (row ! 1)) s")
    case (Inl p)
    with assms Cons show ?thesis
      by (cases p) (auto simp: collectRow_def dest: registerMetricVec_failure split: if_splits)
  next
    case (Inr s1)
    from registerMetricVec_registered [OF Inr] obtain vec
      where "promGaugeVec s1 (buildMetricLabel (row ! 1)) = Some vec"
      by blast
    with assms Cons Inr show ?thesis
      by (auto simp: collectRow_def split: if_splits)
  qed
qed

lemma collectRows_failure:
  "collectRows scan rows s = Inl (f, s') \<Longrightarrow>
   f = IndexOutOfRange \<or> f = TypeAssertionFailed \<or> (\<exists>e. f = RegisterFailed e)"
proof (induction rows arbitrary: s)
  case Nil
  then show ?case by simp
next
  case (Cons row rows)
  show ?case
  proof (cases "collectRow scan row s")
    case (Inl p)
    with Cons.prems have "collectRow scan row s = Inl (f, s')"
      by simp
    then show ?thesis by (rule collectRow_failure)
  next
    case (Inr s1)
    with Cons.prems have "collectRows scan rows s1 = Inl (f, s')"
      by simp
    then show ?thesis by (rule Cons.IH)
  qed
qed

text \<open>
  C6. When the request to the data source returns an error, \<^verbatim>\<open>collectMetric\<close> panics
  with that error, having sent the one request and changed nothing else; when the request
  succeeds, no panic of \<^verbatim>\<open>collectMetric\<close> is a fetch failure.
\<close>

theorem fetch_error_is_fatal:
  "(rts (mkRequest config metric gaDimensions) = Inl err \<longrightarrow>
      collectMetric config scan rts metric gaDimensions s =
        Inl (FetchFailed err,
             s\<lparr>requests := requests s @ [mkRequest config metric gaDimensions]\<rparr>)) \<and>
   (rts (mkRequest config metric gaDimensions) = Inr rows \<longrightarrow>
      (\<forall>e s'. collectMetric config scan rts metric gaDimensions s \<noteq> Inl (FetchFailed e, s')))"
proof (intro conjI impI allI)
  assume "rts (mkRequest config metric gaDimensions) = Inl err"
  then show "collectMetric config scan rts metric gaDimensions s =
        Inl (FetchFailed err,
             s\<lparr>requests := requests s @ [mkRequest config metric gaDimensions]\<rparr>)"
    by (simp add: collectMetric_def)
next
  fix e s'
  assume ok: "rts (mkRequest config metric gaDimensions) = Inr rows"
  show "collectMetric config scan rts metric gaDimensions s \<noteq> Inl (FetchFailed e, s')"
  proof
    assume a: "collectMetric config scan rts metric gaDimensions s = Inl (FetchFailed e, s')"
    show False
    proof (cases "length rows = 1")
      case True
      with a ok show False
        by (auto simp: collectMetric_def Let_def split: if_splits option.splits)
    next
      case False
      with a ok have "collectRows scan rows
          (s\<lparr>requests := requests s @ [mkRequest config metric gaDimensions]\<rparr>) =
          Inl (FetchFailed e, s')"
        by (simp add: collectMetric_def)
      then show False
        by (auto dest: collectRows_failure)
    qed
  qed
qed

theorem fetch_error_is_fatal_witness:
  "collectMetric sampleConf sampleScan (\<lambda>r. Inl ''503'') ''rt:activeUsers'' ''rt:country,rt:city''
     (init sampleConf) =
     Inl (FetchFailed ''503'',
          (init sampleConf)\<lparr>requests :=
             [\<lparr>reqViewID = ''ga:123'', reqMetric = ''rt:activeUsers'',
               reqDimensions = Some ''rt:country,rt:city''\<rparr>]\<rparr>) \<and>
   (\<forall>e s'. collectMetric sampleConf sampleScan (\<lambda>r. Inr [[''42.5'']]) ''rt:activeUsers''
        ''rt:country,rt:city'' (init sampleConf) \<noteq> Inl (FetchFailed e, s'))"
proof -
  have r: "requests (init sampleConf) = []"
    by (simp add: sampleConf_def state_eval registry_eval name_eval)
  have m: "mkRequest sampleConf ''rt:activeUsers'' ''rt:country,rt:city'' =
      \<lparr>reqViewID = ''ga:123'', reqMetric = ''rt:activeUsers'',
       reqDimensions = Some ''rt:country,rt:city''\<rparr>"
    by (simp add: mkRequest_def sampleConf_def)
  from fetch_error_is_fatal [where rts = "\<lambda>r. Inl ''503''" and err = "''503''"
      and config = sampleConf and metric = "''rt:activeUsers''"
      and gaDimensions = "''rt:country,rt:city''" and scan = sampleScan and s = "init sampleConf"]
    fetch_error_is_fatal [where rts = "\<lambda>r. Inr [[''42.5'']]" and rows = "[[''42.5'']]"
      and config = sampleConf and metric = "''rt:activeUsers''"
      and gaDimensions = "''rt:country,rt:city''" and scan = sampleScan and s = "init sampleConf"]
  show ?thesis
    by (simp add: r m)
qed

lemma init_step_promGauge:
  "promGauge (init_step m s) k = (if k = m then Some (nextAddr s) else promGauge s k)"
  by (simp add: init_step_def Let_def split: sum.splits)

lemma init_loop_promGauge:
  "m \<in> set ms \<or> promGauge s m \<noteq> None \<Longrightarrow> promGauge (init_loop ms s) m \<noteq> None"
proof (induction ms arbitrary: s)
  case Nil
  then show ?case by simp
next
  case (Cons a ms)
  have "m \<in> set ms \<or> promGauge (init_step a s) m \<noteq> None"
    using Cons.prems by (auto simp: init_step_promGauge)
  then show ?case
    using Cons.IH by simp
qed

text \<open>After \<^verbatim>\<open>init\<close> every configured metric has its gauge in \<^verbatim>\<open>promGauge\<close>.\<close>

lemma init_promGauge:
  "m \<in> set (Metrics config) \<Longrightarrow> \<exists>g. promGauge (init config) m = Some g"
  using init_loop_promGauge [of m "Metrics config" start] by (auto simp: init_def)

text \<open>
  C2, as the claim states it: on a parse failure the value written would be zero. The cell
  \<^verbatim>\<open>1e999\<close> is a well-formed literal beyond the range of \<^verbatim>\<open>float64\<close>: \<^verbatim>\<open>ParseFloat\<close> fails on it
  with \<^verbatim>\<open>ErrRange\<close> and returns the positive infinity, the error is dropped, and the gauge
  of the metric is set to the infinity.
\<close>

theorem scalar_range_error_is_not_zero:
  "snd (ParseFloat sampleScan ''1e999'') = Some ErrRange \<and>
   collectMetric sampleConf sampleScan (answering [[''1e999'']]) ''rt:activeUsers'' ''''
       (init sampleConf) =
     Inr ((init sampleConf)
            \<lparr>requests := [mkRequest sampleConf ''rt:activeUsers'' ''''],
             gaugeVal := (gaugeVal (init sampleConf))(1 := PosInf)\<rparr>) \<and>
   PosInf \<noteq> Finite 0"
proof -
  have "promGauge (init sampleConf) ''rt:activeUsers'' = Some 1"
    and "requests (init sampleConf) = []"
    by (simp_all add: sampleConf_def state_eval registry_eval name_eval)
  then show ?thesis
    by (simp add: collectMetric_def ParseFloat_def sampleScan_def answering_def)
qed

text \<open>
  C2, amended. For a result of exactly one row and a metric with a gauge in \<^verbatim>\<open>promGauge\<close>
  (every configured metric has one after \<^verbatim>\<open>init\<close>), \<^verbatim>\<open>collectMetric\<close> returns normally and
  the gauge of the metric holds what \<^verbatim>\<open>ParseFloat\<close> returns for the first cell: the number
  read; 0 when the parse fails on a malformed cell; the infinity of the literal's sign
  when the parse fails on a literal out of range. No other gauge changes, and nothing is
  registered or written for a vector.
\<close>

theorem scalar_result:
  "rts (mkRequest config metric gaDimensions) = Inr [cell # cells] \<and>
   promGauge s metric = Some g \<longrightarrow>
   (\<exists>s'. collectMetric config scan rts metric gaDimensions s = Inr s' \<and>
      gaugeVal s' g = fst (ParseFloat scan cell) \<and>
      (\<forall>f. scan cell = Number f \<longrightarrow> gaugeVal s' g = f) \<and>
      (scan cell = Malformed \<longrightarrow> gaugeVal s' g = Finite 0) \<and>
      (\<forall>negative. scan cell = OutOfRange negative \<longrightarrow>
         gaugeVal s' g = (if negative then NegInf else PosInf)) \<and>
      (\<forall>a. a \<noteq> g \<longrightarrow> gaugeVal s' a = gaugeVal s a) \<and>
      promGauge s' = promGauge s \<and> promGaugeVec s' = promGaugeVec s \<and>
      registry s' = registry s \<and> vecVal s' = vecVal s \<and> nextAddr s' = nextAddr s)"
  by (auto simp: collectMetric_def ParseFloat_def)

theorem scalar_result_witness:
  "(\<exists>s'. collectMetric sampleConf sampleScan (answering [[''42.5'']]) ''rt:activeUsers'' ''''
          (init sampleConf) = Inr s' \<and>
        gaugeVal s' 1 = Finite 42.5 \<and> gaugeVal s' 0 = Finite 0 \<and>
        promGaugeVec s' = Map.empty \<and> registry s' = registry (init sampleConf) \<and>
        vecVal s' = (\<lambda>a. Map.empty)) \<and>
   (\<exists>s'. collectMetric sampleConf sampleScan (answering [[''abc'']]) ''rt:activeUsers'' ''''
          (init sampleConf) = Inr s' \<and> gaugeVal s' 1 = Finite 0) \<and>
   (\<exists>s'. collectMetric sampleConf sampleScan (answering [[''1e999'']]) ''rt:activeUsers'' ''''
          (init sampleConf) = Inr s' \<and> gaugeVal s' 1 = PosInf)"
proof -
  have g: "promGauge (init sampleConf) ''rt:activeUsers'' = Some 1"
    and z: "gaugeVal (init sampleConf) 0 = Finite 0"
    and v: "promGaugeVec (init sampleConf) = Map.empty"
    and w: "vecVal (init sampleConf) = (\<lambda>a. Map.empty)"
    by (simp_all add: sampleConf_def state_eval registry_eval name_eval)
  have c: "sampleScan ''42.5'' = Number (Finite 42.5)" "sampleScan ''abc'' = Malformed"
    "sampleScan ''1e999'' = OutOfRange False"
    by (simp_all add: sampleScan_def)
  have r: "answering rows (mkRequest sampleConf ''rt:activeUsers'' '''') = Inr rows" for rows
    by (simp add: answering_def)
  from scalar_result [where rts = "answering [[''42.5'']]" and cell = "''42.5''" and cells = "[]"
      and config = sampleConf and metric = "''rt:activeUsers''" and gaDimensions = "''''"
      and scan = sampleScan and s = "init sampleConf" and g = 1] g z v w c(1) r
  have one: "\<exists>s'. collectMetric sampleConf sampleScan (answering [[''42.5'']]) ''rt:activeUsers'' ''''
          (init sampleConf) = Inr s' \<and>
        gaugeVal s' 1 = Finite 42.5 \<and> gaugeVal s' 0 = Finite 0 \<and>
        promGaugeVec s' = Map.empty \<and> registry s' = registry (init sampleConf) \<and>
        vecVal s' = (\<lambda>a. Map.empty)"
    by auto
  from scalar_result [where rts = "answering [[''abc'']]" and cell = "''abc''" and cells = "[]"
      and config = sampleConf and metric = "''rt:activeUsers''" and gaDimensions = "''''"
      and scan = sampleScan and s = "init sampleConf" and g = 1] g c(2) r
  have two: "\<exists>s'. collectMetric sampleConf sampleScan (answering [[''abc'']]) ''rt:activeUsers'' ''''
          (init sampleConf) = Inr s' \<and> gaugeVal s' 1 = Finite 0"
    by auto
  from scalar_result [where rts = "answering [[''1e999'']]" and cell = "''1e999''" and cells = "[]"
      and config = sampleConf and metric = "''rt:activeUsers''" and gaDimensions = "''''"
      and scan = sampleScan and s = "init sampleConf" and g = 1] g c(3) r
  have three: "\<exists>s'. collectMetric sampleConf sampleScan (answering [[''1e999'']]) ''rt:activeUsers'' ''''
          (init sampleConf) = Inr s' \<and> gaugeVal s' 1 = PosInf"
    by auto
  from one two three show ?thesis
    by blast
qed


lemma not_set_eval:
  "\<not> Contains ''US'' ''(not set)''" "\<not> Contains ''DE'' ''(not set)''"
  "Contains ''(not set)'' ''(not set)''"
  by simp_all


section \<open>The loop over the rows\<close>

lemma collectRows_skip:
  "Contains category ''(not set)'' \<Longrightarrow>
   collectRows scan ((category # cells) # rest) s = collectRows scan rest s"
  by (simp add: collectRow_skip)

lemma isNameChar_alnum: "isAlnum c \<Longrightarrow> isNameChar c"
  by (simp add: isNameChar_def)

lemma IsValidMetricName_label: "IsValidMetricName (fqName (gaugeVecDesc (buildMetricLabel x)))"
proof -
  have "list_all isNameChar (filter isAlnum x)"
    by (simp add: list_all_iff isNameChar_alnum)
  then have "IsValidMetricName (''ga_rt__'' @ filter isAlnum x)"
    by (simp add: IsValidMetricName_def isNameChar_def isAlnum_def isDigit_def)
  then show ?thesis
    by (simp only: fqName_gaugeVecDesc_label)
qed

lemma vectorLabelOf_label:
  "vectorLabelOf (fqName (gaugeVecDesc (buildMetricLabel x))) = Some (buildMetricLabel x)"
proof -
  have "list_all isAlnum (filter isAlnum x)"
    by (simp add: list_all_iff)
  then have "vectorLabelOf (''ga_rt__'' @ filter isAlnum x) = Some (''rt:_'' @ filter isAlnum x)"
    by (simp add: vectorLabelOf_def)
  moreover have "Some (''rt:_'' @ filter isAlnum x) = Some (buildMetricLabel x)"
    by (simp only: buildMetricLabel_eq)
  ultimately show ?thesis
    by (simp only: fqName_gaugeVecDesc_label)
qed

lemma vector_names_freeD:
  assumes "vector_names_free r" and "(d, c) \<in> set r"
      and "fqName d = fqName (gaugeVecDesc (buildMetricLabel x))"
  shows "d = gaugeVecDesc (buildMetricLabel x) \<and> (\<exists>a. c = GaugeVec a)"
proof -
  from assms(1,2) have "case vectorLabelOf (fqName d) of
      None \<Rightarrow> True
    | Some label \<Rightarrow> d = gaugeVecDesc label \<and> (case c of GaugeVec a \<Rightarrow> True | Gauge a \<Rightarrow> False)"
    by (auto simp: vector_names_free_def list_all_iff)
  then have "d = gaugeVecDesc (buildMetricLabel x) \<and>
      (case c of GaugeVec a \<Rightarrow> True | Gauge a \<Rightarrow> False)"
    by (simp only: assms(3) vectorLabelOf_label option.case)
  then show ?thesis
    by (cases c) simp_all
qed

lemma vector_names_free_snoc:
  "vector_names_free r \<Longrightarrow>
   vector_names_free (r @ [(gaugeVecDesc (buildMetricLabel x), GaugeVec a)])"
  by (simp add: vector_names_free_def vectorLabelOf_label)

lemma registerMetricVec_free:
  assumes "vector_names_free (registry s)"
  shows "\<exists>s1. registerMetricVec (buildMetricLabel x) s = Inr s1 \<and>
              vector_names_free (registry s1)"
proof -
  let ?d = "gaugeVecDesc (buildMetricLabel x)"
  have valid: "IsValidMetricName (fqName ?d)"
    by (rule IsValidMetricName_label)
  have same: "d' = ?d \<and> (\<exists>a. c' = GaugeVec a)"
    if "(d', c') \<in> set (registry s)" and "fqName d' = fqName ?d" for d' c'
    using assms that by (rule vector_names_freeD)
  have consistent:
    "\<not> list_ex (\<lambda>(d', c'). fqName d' = fqName ?d \<and> dimHash d' \<noteq> dimHash ?d) (registry s)"
    using same by (auto simp: list_ex_iff)
  show ?thesis
  proof (cases "find (\<lambda>(d', c'). descID d' = descID ?d) (registry s)")
    case None
    then have "Register (registry s) ?d (GaugeVec (nextAddr s)) =
        Inr (registry s @ [(?d, GaugeVec (nextAddr s))])"
      using valid consistent by (simp add: Register_def)
    then show ?thesis
      using assms by (simp add: registerMetricVec_def Let_def vector_names_free_snoc)
  next
    case (Some p)
    obtain d' c' where p: "p = (d', c')"
      by (cases p)
    from Some p have "(d', c') \<in> set (registry s)" and "descID d' = descID ?d"
      by (auto simp: find_Some_iff in_set_conv_nth)
    then obtain a where "c' = GaugeVec a"
      using same [of d' c'] by (auto simp: descID_def)
    with Some p have "Register (registry s) ?d (GaugeVec (nextAddr s)) =
        Inl (AlreadyRegisteredError (GaugeVec a))"
      using valid consistent by (simp add: Register_def)
    then show ?thesis
      using assms by (simp add: registerMetricVec_def Let_def)
  qed
qed

text \<open>
  C1. A result that does not have exactly one row is handled by the loop over its rows,
  and with no row nothing but the request log changes. In the loop, a row whose first
  cell contains \<^verbatim>\<open>(not set)\<close> leaves the state as it is. For any other row the second cell
  is sanitized into a label, \<^verbatim>\<open>registerMetricVec\<close> is called for the label, and when it
  succeeds the vector behind the installed handle, which is registered under the label's
  descriptor, gets the value of the third cell at the child of the row's first cell.
\<close>

theorem vector_result:
  "(rts (mkRequest config metric gaDimensions) = Inr rows \<and> length rows \<noteq> 1 \<longrightarrow>
      collectMetric config scan rts metric gaDimensions s =
        collectRows scan rows
          (s\<lparr>requests := requests s @ [mkRequest config metric gaDimensions]\<rparr>)) \<and>
   (rts (mkRequest config metric gaDimensions) = Inr [] \<longrightarrow>
      collectMetric config scan rts metric gaDimensions s =
        Inr (s\<lparr>requests := requests s @ [mkRequest config metric gaDimensions]\<rparr>)) \<and>
   (Contains category ''(not set)'' \<longrightarrow>
      collectRows scan ((category # cells) # rest) t = collectRows scan rest t) \<and>
   (\<not> Contains category ''(not set)'' \<and>
    registerMetricVec (buildMetricLabel dimensionValue) t = Inr t1 \<longrightarrow>
      (\<exists>vec. promGaugeVec t1 (buildMetricLabel dimensionValue) = Some vec \<and>
         (gaugeVecDesc (buildMetricLabel dimensionValue), GaugeVec vec) \<in> set (registry t1) \<and>
         collectRows scan ((category # dimensionValue # cell # others) # rest) t =
           collectRows scan rest
             (t1\<lparr>vecVal := (vecVal t1)
                (vec := (vecVal t1 vec)([category] \<mapsto> fst (ParseFloat scan cell)))\<rparr>))) \<and>
   (vector_names_free (registry t) \<longrightarrow>
      (\<exists>t1. registerMetricVec (buildMetricLabel dimensionValue) t = Inr t1 \<and>
         vector_names_free (registry t1)))"
proof (intro conjI impI)
  assume "rts (mkRequest config metric gaDimensions) = Inr rows \<and> length rows \<noteq> 1"
  then show "collectMetric config scan rts metric gaDimensions s =
        collectRows scan rows
          (s\<lparr>requests := requests s @ [mkRequest config metric gaDimensions]\<rparr>)"
    by (simp add: collectMetric_def)
next
  assume "rts (mkRequest config metric gaDimensions) = Inr []"
  then show "collectMetric config scan rts metric gaDimensions s =
        Inr (s\<lparr>requests := requests s @ [mkRequest config metric gaDimensions]\<rparr>)"
    by (simp add: collectMetric_def)
next
  assume "Contains category ''(not set)''"
  then show "collectRows scan ((category # cells) # rest) t = collectRows scan rest t"
    by (rule collectRows_skip)
next
  assume "\<not> Contains category ''(not set)'' \<and>
    registerMetricVec (buildMetricLabel dimensionValue) t = Inr t1"
  then obtain vec where "promGaugeVec t1 (buildMetricLabel dimensionValue) = Some vec"
    and "(gaugeVecDesc (buildMetricLabel dimensionValue), GaugeVec vec) \<in> set (registry t1)"
    and "collectRow scan (category # dimensionValue # cell # others) t =
           Inr (t1\<lparr>vecVal := (vecVal t1)
                  (vec := (vecVal t1 vec)([category] \<mapsto> fst (ParseFloat scan cell)))\<rparr>)"
    using collectRow_keep [of category dimensionValue t t1 scan cell others] by blast
  then show "\<exists>vec. promGaugeVec t1 (buildMetricLabel dimensionValue) = Some vec \<and>
         (gaugeVecDesc (buildMetricLabel dimensionValue), GaugeVec vec) \<in> set (registry t1) \<and>
         collectRows scan ((category # dimensionValue # cell # others) # rest) t =
           collectRows scan rest
             (t1\<lparr>vecVal := (vecVal t1)
                (vec := (vecVal t1 vec)([category] \<mapsto> fst (ParseFloat scan cell)))\<rparr>)"
    by simp
next
  assume "vector_names_free (registry t)"
  then show "\<exists>t1. registerMetricVec (buildMetricLabel dimensionValue) t = Inr t1 \<and>
         vector_names_free (registry t1)"
    by (rule registerMetricVec_free)
qed

theorem vector_result_witness:
  "\<exists>s'. collectMetric sampleConf sampleScan
          (\<lambda>r. Inr [[''(not set)'', ''x'', ''1''], [''US'', ''mobile'', ''7'']])
          ''rt:activeUsers'' '''' (init sampleConf) = Inr s' \<and>
        registry s' = registry (init sampleConf) @ [(gaugeVecDesc ''rt:_mobile'', GaugeVec 2)] \<and>
        promGaugeVec s' = [''rt:_mobile'' \<mapsto> 2] \<and>
        vecVal s' = (\<lambda>a. Map.empty)(2 := [[''US''] \<mapsto> Finite 7]) \<and>
        gaugeVal s' = gaugeVal (init sampleConf) \<and>
        collectMetric sampleConf sampleScan (\<lambda>r. Inr []) ''rt:activeUsers'' '''' (init sampleConf) =
          Inr ((init sampleConf)\<lparr>requests := [mkRequest sampleConf ''rt:activeUsers'' '''']\<rparr>)"
proof -
  let ?rows = "[[''(not set)'', ''x'', ''1''], [''US'', ''mobile'', ''7'']]"
  let ?s0 = "(init sampleConf)\<lparr>requests :=
               requests (init sampleConf) @ [mkRequest sampleConf ''rt:activeUsers'' '''']\<rparr>"
  have r: "requests (init sampleConf) = []"
    by (simp add: sampleConf_def state_eval registry_eval name_eval)
  have l: "buildMetricLabel ''mobile'' = ''rt:_mobile''"
    by (simp add: buildMetricLabel_def isAlnum_def)
  have c: "sampleScan ''7'' = Number (Finite 7)"
    by (simp add: sampleScan_def)
  have f: "vector_names_free (registry ?s0)"
    by (simp add: init_sampleConf_registry vector_names_free_def vectorLabelOf_def gaugeDesc_def)
  obtain t1 where t1: "registerMetricVec ''rt:_mobile'' ?s0 = Inr t1"
    and reg: "registry t1 = registry (init sampleConf) @ [(gaugeVecDesc ''rt:_mobile'', GaugeVec 2)]"
    and h: "promGaugeVec t1 = [''rt:_mobile'' \<mapsto> 2]"
    and v: "vecVal t1 = (\<lambda>a. Map.empty)(2 := Map.empty)"
    and g: "gaugeVal t1 = gaugeVal (init sampleConf)"
    by (simp add: sampleConf_def state_eval registry_eval name_eval numeral_2_eq_2)
  have a: "collectMetric sampleConf sampleScan (\<lambda>r. Inr ?rows) ''rt:activeUsers'' ''''
      (init sampleConf) = collectRows sampleScan ?rows ?s0"
    using vector_result [where rts = "\<lambda>r. Inr ?rows" and rows = ?rows and config = sampleConf
        and metric = "''rt:activeUsers''" and gaDimensions = "''''" and scan = sampleScan
        and s = "init sampleConf"]
    by simp
  have b: "collectRows sampleScan ?rows ?s0 =
      collectRows sampleScan [[''US'', ''mobile'', ''7'']] ?s0"
    using vector_result [where category = "''(not set)''" and cells = "[''x'', ''1'']"
        and rest = "[[''US'', ''mobile'', ''7'']]" and scan = sampleScan and t = ?s0]
      not_set_eval(3)
    by simp
  have d: "collectRows sampleScan [[''US'', ''mobile'', ''7'']] ?s0 =
      Inr (t1\<lparr>vecVal := (vecVal t1)(2 := (vecVal t1 2)([''US''] \<mapsto> Finite 7))\<rparr>)"
    using vector_result [where category = "''US''" and dimensionValue = "''mobile''"
        and cell = "''7''" and others = "[]" and rest = "[]" and scan = sampleScan
        and t = ?s0 and ?t1.0 = t1] not_set_eval(1) t1 h f
    by (auto simp: l c ParseFloat_def)
  have e: "collectMetric sampleConf sampleScan (\<lambda>r. Inr []) ''rt:activeUsers'' ''''
      (init sampleConf) = Inr ?s0"
    using vector_result [where rts = "\<lambda>r. Inr []" and config = sampleConf
        and metric = "''rt:activeUsers''" and gaDimensions = "''''" and scan = sampleScan
        and s = "init sampleConf"]
    by simp
  show ?thesis
    using a b d e reg h v g r by (auto simp: fun_eq_iff)
qed

lemma collectRow_free:
  assumes "vector_names_free (registry s)"
  shows "(row_indexable row \<longrightarrow>
            (\<exists>s1. collectRow scan row s = Inr s1 \<and> vector_names_free (registry s1))) \<and>
         (\<not> row_indexable row \<longrightarrow> (\<exists>s'. collectRow scan row s = Inl (IndexOutOfRange, s')))"
proof (cases row)
  case Nil
  then show ?thesis
    by (simp add: row_indexable_def collectRow_def)
next
  case (Cons category cells)
  show ?thesis
  proof (cases "Contains category ''(not set)''")
    case True
    with Cons assms show ?thesis
      by (simp add: row_indexable_def collectRow_def)
  next
    case False
    from registerMetricVec_free [OF assms] obtain s1
      where s1: "registerMetricVec (buildMetricLabel (row ! 1)) s = Inr s1"
        and free: "vector_names_free (registry s1)"
      by blast
    from registerMetricVec_registered [OF s1] obtain vec
      where vec: "promGaugeVec s1 (buildMetricLabel (row ! 1)) = Some vec"
      by blast
    from Cons False s1 vec free show ?thesis
      by (auto simp: row_indexable_def collectRow_def)
  qed
qed

lemma collectRows_free:
  "vector_names_free (registry s) \<Longrightarrow>
   (list_all row_indexable rows \<longrightarrow> (\<exists>s1. collectRows scan rows s = Inr s1)) \<and>
   (\<not> list_all row_indexable rows \<longrightarrow>
      (\<exists>s'. collectRows scan rows s = Inl (IndexOutOfRange, s')))"
proof (induction rows arbitrary: s)
  case Nil
  then show ?case by simp
next
  case (Cons row rows)
  show ?case
  proof (cases "row_indexable row")
    case True
    with collectRow_free [OF Cons.prems, of row scan] obtain s1
      where "collectRow scan row s = Inr s1" and "vector_names_free (registry s1)"
      by blast
    then show ?thesis
      using Cons.IH [of s1] True by simp
  next
    case False
    with collectRow_free [OF Cons.prems, of row scan] obtain s'
      where "collectRow scan row s = Inl (IndexOutOfRange, s')"
      by blast
    then show ?thesis
      using False by simp
  qed
qed

lemma collectRow_indexable:
  assumes "row_indexable row"
  shows "collectRow scan row s \<noteq> Inl (IndexOutOfRange, s')"
proof (cases row)
  case Nil
  with assms show ?thesis by (simp add: row_indexable_def)
next
  case (Cons category cells)
  show ?thesis
  proof (cases "registerMetricVec (buildMetricLabel (row ! 1)) s")
    case (Inl p)
    then have "fst p \<noteq> IndexOutOfRange"
      using registerMetricVec_failure [of "buildMetricLabel (row ! 1)" s "fst p" "snd p"]
      by auto
    with Inl Cons assms show ?thesis
      by (auto simp: row_indexable_def collectRow_def)
  next
    case (Inr s1)
    with Cons assms show ?thesis
      by (auto simp: row_indexable_def collectRow_def split: option.splits)
  qed
qed

lemma collectRows_indexable:
  "list_all row_indexable rows \<Longrightarrow> collectRows scan rows s \<noteq> Inl (IndexOutOfRange, s')"
proof (induction rows arbitrary: s)
  case Nil
  then show ?case by simp
next
  case (Cons row rows)
  then have row: "row_indexable row" and rows: "list_all row_indexable rows"
    by simp_all
  show ?case
  proof (cases "collectRow scan row s")
    case (Inl p)
    then show ?thesis
      using collectRow_indexable [OF row, of scan s s'] by simp
  next
    case (Inr s1)
    then show ?thesis
      using Cons.IH [OF rows, of s1] by simp
  qed
qed

lemma collectRow_not_indexable:
  assumes "\<not> row_indexable row"
  shows "\<exists>p. collectRow scan row s = Inl p"
proof (cases row)
  case Nil
  then show ?thesis by (simp add: collectRow_def)
next
  case (Cons category cells)
  with assms have short: "\<not> Contains category ''(not set)''" "length row < 3"
    by (simp_all add: row_indexable_def)
  show ?thesis
  proof (cases "registerMetricVec (buildMetricLabel (row ! 1)) s")
    case (Inl p)
    with Cons short show ?thesis
      by (simp add: collectRow_def)
  next
    case (Inr s1)
    with Cons short show ?thesis
      by (simp add: collectRow_def)
  qed
qed

lemma collectRows_not_indexable:
  "\<not> list_all row_indexable rows \<Longrightarrow> \<exists>p. collectRows scan rows s = Inl p"
proof (induction rows arbitrary: s)
  case Nil
  then show ?case by simp
next
  case (Cons row rows)
  show ?case
  proof (cases "collectRow scan row s")
    case (Inl p)
    then show ?thesis by simp
  next
    case (Inr s1)
    then have "row_indexable row"
      using collectRow_not_indexable [of row scan s] by auto
    with Cons.prems have "\<not> list_all row_indexable rows"
      by simp
    then show ?thesis
      using Cons.IH [of s1] Inr by simp
  qed
qed

text \<open>
  C10. \<^verbatim>\<open>collectMetric\<close> indexes the rows without checking their lengths. For a result of
  the shape \<open>rows_indexable\<close> no panic is an index out of range. For a result not of that
  shape, and a registry in which no other series bears the name of a vector series (so
  that no registration fails first), \<^verbatim>\<open>collectMetric\<close> panics with an index out of
  range; the short row is not skipped.
\<close>

theorem indexing_precondition:
  "rts (mkRequest config metric gaDimensions) = Inr rows \<longrightarrow>
     (rows_indexable rows \<longrightarrow>
        (\<forall>s'. collectMetric config scan rts metric gaDimensions s \<noteq> Inl (IndexOutOfRange, s'))) \<and>
     (\<not> rows_indexable rows \<and> vector_names_free (registry s) \<longrightarrow>
        (\<exists>s'. collectMetric config scan rts metric gaDimensions s = Inl (IndexOutOfRange, s'))) \<and>
     (\<not> rows_indexable rows \<longrightarrow>
        (\<exists>f s'. collectMetric config scan rts metric gaDimensions s = Inl (f, s') \<and>
           (f = IndexOutOfRange \<or> f = TypeAssertionFailed \<or> (\<exists>e. f = RegisterFailed e))))"
proof (intro impI conjI allI)
  fix s'
  assume ok: "rts (mkRequest config metric gaDimensions) = Inr rows"
    and shape: "rows_indexable rows"
  show "collectMetric config scan rts metric gaDimensions s \<noteq> Inl (IndexOutOfRange, s')"
  proof (cases "length rows = 1")
    case True
    with ok shape show ?thesis
      by (auto simp: collectMetric_def rows_indexable_def Let_def split: option.splits)
  next
    case False
    with shape have "list_all row_indexable rows"
      by (simp add: rows_indexable_def)
    then show ?thesis
      using ok False by (simp add: collectMetric_def collectRows_indexable)
  qed
next
  assume ok: "rts (mkRequest config metric gaDimensions) = Inr rows"
    and bad: "\<not> rows_indexable rows \<and> vector_names_free (registry s)"
  show "\<exists>s'. collectMetric config scan rts metric gaDimensions s = Inl (IndexOutOfRange, s')"
  proof (cases "length rows = 1")
    case True
    with bad have "rows ! 0 = []"
      by (cases "rows ! 0") (simp_all add: rows_indexable_def)
    with ok True show ?thesis
      by (simp add: collectMetric_def Let_def)
  next
    case False
    let ?s0 = "s\<lparr>requests := requests s @ [mkRequest config metric gaDimensions]\<rparr>"
    from bad False have "\<not> list_all row_indexable rows"
      by (simp add: rows_indexable_def)
    moreover from bad have "vector_names_free (registry ?s0)"
      by simp
    ultimately obtain s' where "collectRows scan rows ?s0 = Inl (IndexOutOfRange, s')"
      using collectRows_free [of ?s0 rows scan] by blast
    then show ?thesis
      using ok False by (simp add: collectMetric_def)
  qed
next
  assume ok: "rts (mkRequest config metric gaDimensions) = Inr rows"
    and bad: "\<not> rows_indexable rows"
  show "\<exists>f s'. collectMetric config scan rts metric gaDimensions s = Inl (f, s') \<and>
           (f = IndexOutOfRange \<or> f = TypeAssertionFailed \<or> (\<exists>e. f = RegisterFailed e))"
  proof (cases "length rows = 1")
    case True
    with bad have "rows ! 0 = []"
      by (cases "rows ! 0") (simp_all add: rows_indexable_def)
    with ok True show ?thesis
      by (simp add: collectMetric_def Let_def)
  next
    case False
    let ?s0 = "s\<lparr>requests := requests s @ [mkRequest config metric gaDimensions]\<rparr>"
    from bad False have "\<not> list_all row_indexable rows"
      by (simp add: rows_indexable_def)
    then obtain f s' where p: "collectRows scan rows ?s0 = Inl (f, s')"
      using collectRows_not_indexable [of rows scan ?s0] by auto
    then have "f = IndexOutOfRange \<or> f = TypeAssertionFailed \<or> (\<exists>e. f = RegisterFailed e)"
      by (rule collectRows_failure)
    with p show ?thesis
      using ok False by (simp add: collectMetric_def)
  qed
qed

theorem indexing_precondition_witness:
  "(\<forall>s'. collectMetric sampleConf sampleScan
            (\<lambda>r. Inr [[''(not set)''], [''US'', ''mobile'', ''7'']])
            ''rt:activeUsers'' '''' (init sampleConf) \<noteq> Inl (IndexOutOfRange, s')) \<and>
   (\<exists>s'. collectMetric sampleConf sampleScan
            (\<lambda>r. Inr [[''US'', ''mobile'', ''7''], [''DE'', ''tablet'']])
            ''rt:activeUsers'' '''' (init sampleConf) = Inl (IndexOutOfRange, s')) \<and>
   (\<exists>s'. collectMetric sampleConf sampleScan (\<lambda>r. Inr [[]])
            ''rt:activeUsers'' '''' (init sampleConf) = Inl (IndexOutOfRange, s'))"
proof -
  have a: "rows_indexable [[''(not set)''], [''US'', ''mobile'', ''7'']]"
    by (simp add: rows_indexable_def row_indexable_def)
  have b: "\<not> rows_indexable [[''US'', ''mobile'', ''7''], [''DE'', ''tablet'']]"
    by (simp add: rows_indexable_def row_indexable_def)
  have c: "\<not> rows_indexable [[]]"
    by (simp add: rows_indexable_def)
  have f: "vector_names_free (registry (init sampleConf))"
    by (simp add: init_sampleConf_registry vector_names_free_def vectorLabelOf_def gaugeDesc_def)
  from indexing_precondition [where rts = "\<lambda>r. Inr [[''(not set)''], [''US'', ''mobile'', ''7'']]"
      and rows = "[[''(not set)''], [''US'', ''mobile'', ''7'']]" and config = sampleConf
      and metric = "''rt:activeUsers''" and gaDimensions = "''''" and scan = sampleScan
      and s = "init sampleConf"]
    indexing_precondition [where rts = "\<lambda>r. Inr [[''US'', ''mobile'', ''7''], [''DE'', ''tablet'']]"
      and rows = "[[''US'', ''mobile'', ''7''], [''DE'', ''tablet'']]" and config = sampleConf
      and metric = "''rt:activeUsers''" and gaDimensions = "''''" and scan = sampleScan
      and s = "init sampleConf"]
    indexing_precondition [where rts = "\<lambda>r. Inr [[]]"
      and rows = "[[]]" and config = sampleConf
      and metric = "''rt:activeUsers''" and gaDimensions = "''''" and scan = sampleScan
      and s = "init sampleConf"]
    a b c f
  show ?thesis
    by simp
qed

section \<open>The conditions on the registry, and further facts\<close>

text \<open>
  The two conditions on the registry that the theorems above assume hold in the states the
  program reaches: \<^verbatim>\<open>init\<close> establishes them and \<^verbatim>\<open>registerMetricVec\<close> keeps them.
\<close>

lemma Register_distinct:
  assumes "distinct (map (descID \<circ> fst) r)" and "Register r d c = Inr r'"
  shows "distinct (map (descID \<circ> fst) r')"
proof -
  from assms(2) have r': "r' = r @ [(d, c)]"
    and none: "find (\<lambda>(d', c'). descID d' = descID d) r = None"
    by (auto dest: Register_Inr)
  from none have "descID d \<notin> (descID \<circ> fst) ` set r"
    by (auto simp: find_None_iff)
  with assms(1) show ?thesis
    by (simp add: r')
qed

lemma init_step_distinct:
  "distinct (map (descID \<circ> fst) (registry s)) \<Longrightarrow>
   distinct (map (descID \<circ> fst) (registry (init_step m s)))"
  by (auto simp: init_step_def Let_def dest: Register_distinct split: sum.splits)

lemma init_loop_distinct:
  "distinct (map (descID \<circ> fst) (registry s)) \<Longrightarrow>
   distinct (map (descID \<circ> fst) (registry (init_loop ms s)))"
  by (induction ms arbitrary: s) (simp_all add: init_step_distinct)

lemma init_distinct: "distinct (map (descID \<circ> fst) (registry (init config)))"
  by (simp add: init_def init_loop_distinct start_def)

lemma registerMetricVec_distinct:
  assumes "distinct (map (descID \<circ> fst) (registry s))" and "registerMetricVec m s = Inr s1"
  shows "distinct (map (descID \<circ> fst) (registry s1))"
proof (cases "Register (registry s) (gaugeVecDesc m) (GaugeVec (nextAddr s))")
  case (Inl err)
  with assms show ?thesis
    by (auto simp: registerMetricVec_def Let_def split: RegisterError.splits Collector.splits)
next
  case (Inr r)
  with assms(1) have "distinct (map (descID \<circ> fst) r)"
    by (rule Register_distinct)
  with assms(2) Inr show ?thesis
    by (auto simp: registerMetricVec_def Let_def)
qed

lemma init_vector_names_free:
  assumes "\<forall>m \<in> set (Metrics config). vectorLabelOf (fqName (gaugeDesc m)) = None"
  shows "vector_names_free (registry (init config))"
proof -
  have "vectorLabelOf (fqName d) = None" if "(d, c) \<in> set (registry (init config))" for d c
    using init_registry [OF that] assms by auto
  then show ?thesis
    by (auto simp: vector_names_free_def list_all_iff)
qed

text \<open>
  A well-formed literal beyond the range of \<^verbatim>\<open>float64\<close> is the other error of
  \<^verbatim>\<open>ParseFloat\<close>: the value returned with it is an infinity, and that is what is written.
\<close>

lemma scalar_out_of_range:
  assumes "rts (mkRequest config metric gaDimensions) = Inr [cell # cells]"
      and "promGauge s metric = Some g" and "scan cell = OutOfRange negative"
  shows "\<exists>s'. collectMetric config scan rts metric gaDimensions s = Inr s' \<and>
              gaugeVal s' g = (if negative then NegInf else PosInf)"
  using assms by (auto simp: collectMetric_def ParseFloat_def)

text \<open>
  The goroutine of a metric sends the request with the dimensions the resolver returns;
  for the first metric of the sample configuration these are none (see C3).
\<close>

lemma worker_fetch_failure:
  assumes "rts (mkRequest config metric (getDimensions config metric)) = Inl err"
  shows "worker config scan rts metric s =
           Inl (FetchFailed err,
                s\<lparr>requests := requests s @
                   [mkRequest config metric (getDimensions config metric)]\<rparr>)"
  using assms by (simp add: worker_def collectMetric_def)

lemma worker_request_without_dimensions:
  "mkRequest sampleConf ''rt:pageviews'' (getDimensions sampleConf ''rt:pageviews'') =
     \<lparr>reqViewID = ''ga:123'', reqMetric = ''rt:pageviews'', reqDimensions = None\<rparr>"
  by (simp add: mkRequest_def getDimensions_def sampleConf_def sampleDimensions_def index_map_def)

end
